theory Spec2Isabelle
  imports Complex_Main
begin

text \<open>
  The darts exercise of the repository, \<open>src/darts.ts\<close>: the score parser
  \<open>calcPoints\<close> and the checkout advisor \<open>possibleCheckout\<close>, embedded with the
  JavaScript built-ins they call, and the properties of the specification proved or
  refuted on the embedding.
\<close>

section \<open>The JavaScript values that darts.ts computes with\<close>

text \<open>
  A JavaScript string is a sequence of UTF-16 code units; a code unit is a natural
  number here, and \<open>str\<close> turns an Isabelle literal into such a sequence.
\<close>

type_synonym jsstring = "nat list"

definition str :: "string \<Rightarrow> jsstring" where
  "str s = map of_char s"

text \<open>
  The type \<open>number\<close> of TypeScript: NaN, the two infinities and the finite values.
  A finite value is kept as the rational it denotes and the arithmetic below is exact:
  binary64 rounding is not part of the embedding. For tokens that are integers the two
  agree. Rounding is monotone and fixes every integer up to \<open>2 ^ 53\<close>, so a
  comparison with 0, 1, 3 or 25 comes out the same; a product that is counted is at
  most 75; and the running total stays below \<open>2 ^ 53\<close> for every string shorter than
  \<open>10 ^ 14\<close> code units, which no engine holds. For a token with a fraction the
  value kept is the one written, not the binary64 nearest to it, and products and sums
  of such values are exact too: the engine reads 25.00000000000000000001 as 25 and
  computes 3 * 0.1 as 0.30000000000000004, the embedding keeps the written value and
  3/10. Nothing below is stated of such tokens but what holds of every number. The two
  zeros are one value: the program only compares, multiplies and adds, and starts its
  total at +0.
\<close>

datatype number = NaN | PosInf | NegInf | Fin rat

datatype error = Error jsstring

text \<open>The relational operators: every comparison with NaN is false.\<close>

fun js_lt :: "number \<Rightarrow> number \<Rightarrow> bool" where
  "js_lt NaN y = False"
| "js_lt x NaN = False"
| "js_lt (Fin a) (Fin b) = (a < b)"
| "js_lt (Fin a) PosInf = True"
| "js_lt (Fin a) NegInf = False"
| "js_lt PosInf y = False"
| "js_lt NegInf NegInf = False"
| "js_lt NegInf y = True"

definition js_gt :: "number \<Rightarrow> number \<Rightarrow> bool" where
  "js_gt x y = js_lt y x"

fun js_mul :: "number \<Rightarrow> number \<Rightarrow> number" where
  "js_mul NaN y = NaN"
| "js_mul x NaN = NaN"
| "js_mul (Fin a) (Fin b) = Fin (a * b)"
| "js_mul (Fin a) PosInf = (if a = 0 then NaN else if 0 < a then PosInf else NegInf)"
| "js_mul (Fin a) NegInf = (if a = 0 then NaN else if 0 < a then NegInf else PosInf)"
| "js_mul PosInf (Fin b) = (if b = 0 then NaN else if 0 < b then PosInf else NegInf)"
| "js_mul NegInf (Fin b) = (if b = 0 then NaN else if 0 < b then NegInf else PosInf)"
| "js_mul PosInf PosInf = PosInf"
| "js_mul PosInf NegInf = NegInf"
| "js_mul NegInf PosInf = NegInf"
| "js_mul NegInf NegInf = PosInf"

fun js_add :: "number \<Rightarrow> number \<Rightarrow> number" where
  "js_add NaN y = NaN"
| "js_add x NaN = NaN"
| "js_add (Fin a) (Fin b) = Fin (a + b)"
| "js_add (Fin a) PosInf = PosInf"
| "js_add (Fin a) NegInf = NegInf"
| "js_add PosInf NegInf = NaN"
| "js_add PosInf y = PosInf"
| "js_add NegInf PosInf = NaN"
| "js_add NegInf y = NegInf"

fun js_neg :: "number \<Rightarrow> number" where
  "js_neg NaN = NaN"
| "js_neg PosInf = NegInf"
| "js_neg NegInf = PosInf"
| "js_neg (Fin a) = Fin (- a)"

section \<open>The built-ins: the class \<open>\s\<close>, \<open>String.prototype.split\<close>, \<open>Number\<close>\<close>

text \<open>
  White space and line terminators, the code units that \<open>\s\<close> matches and that
  \<open>Number\<close> strips from both ends: TAB, LF, VT, FF, CR, SP, NBSP, U+1680,
  U+2000 to U+200A, U+2028, U+2029, U+202F, U+205F, U+3000 and U+FEFF.
\<close>

definition is_space :: "nat \<Rightarrow> bool" where
  "is_space c =
     (c = 9 \<or> c = 10 \<or> c = 11 \<or> c = 12 \<or> c = 13 \<or> c = 32 \<or> c = 160 \<or> c = 5760
      \<or> (8192 \<le> c \<and> c \<le> 8202) \<or> c = 8232 \<or> c = 8233 \<or> c = 8239 \<or> c = 8287
      \<or> c = 12288 \<or> c = 65279)"

text \<open>The separator \<open>/[\s-]/\<close>: one code unit, white space or the hyphen-minus (45).\<close>

definition is_sep :: "nat \<Rightarrow> bool" where
  "is_sep c = (is_space c \<or> c = 45)"

text \<open>
  \<open>hits.split(/[\s-]/)\<close>: the string is scanned from the left; at every separator
  the substring gathered since the last one is pushed, and the rest after the last
  separator is pushed at the end. The result is never empty: the empty string gives one
  empty token.
\<close>

fun split_from :: "jsstring \<Rightarrow> jsstring \<Rightarrow> jsstring list" where
  "split_from cur [] = [cur]"
| "split_from cur (c # cs) =
     (if is_sep c then cur # split_from [] cs else split_from (cur @ [c]) cs)"

definition split_sep :: "jsstring \<Rightarrow> jsstring list" where
  "split_sep hits = split_from [] hits"

text \<open>
  \<open>Number(token)\<close> on a string is the StringToNumber grammar: white space is
  stripped, the empty string is 0, then a binary, octal or hexadecimal integer
  (\<open>0b\<close>, \<open>0o\<close>, \<open>0x\<close>, unsigned), or an optionally signed decimal: \<open>Infinity\<close>,
  or digits with an optional fraction and an optional exponent. Anything else is NaN.
\<close>

definition digit_val :: "nat \<Rightarrow> nat" where
  "digit_val c =
     (if 48 \<le> c \<and> c \<le> 57 then c - 48
      else if 97 \<le> c \<and> c \<le> 102 then c - 87
      else if 65 \<le> c \<and> c \<le> 70 then c - 55
      else 16)"

definition is_digit_in :: "nat \<Rightarrow> nat \<Rightarrow> bool" where
  "is_digit_in base c = (digit_val c < base)"

definition all_digits :: "nat \<Rightarrow> jsstring \<Rightarrow> bool" where
  "all_digits base ds = (ds \<noteq> [] \<and> list_all (is_digit_in base) ds)"

definition digits_value :: "nat \<Rightarrow> jsstring \<Rightarrow> nat" where
  "digits_value base ds = foldl (\<lambda>acc c. acc * base + digit_val c) 0 ds"

definition trim :: "jsstring \<Rightarrow> jsstring" where
  "trim s = rev (dropWhile is_space (rev (dropWhile is_space s)))"

text \<open>The exponent part: nothing, or \<open>e\<close> or \<open>E\<close>, an optional sign, and digits.\<close>

definition exponent_part :: "jsstring \<Rightarrow> int option" where
  "exponent_part r =
     (case r of
        [] \<Rightarrow> Some 0
      | c # ds \<Rightarrow>
          if c = 101 \<or> c = 69 then
            (case ds of
               [] \<Rightarrow> None
             | s # ds' \<Rightarrow>
                 if s = 43 then
                   (if all_digits 10 ds' then Some (int (digits_value 10 ds')) else None)
                 else if s = 45 then
                   (if all_digits 10 ds' then Some (- int (digits_value 10 ds')) else None)
                 else if all_digits 10 ds then Some (int (digits_value 10 ds))
                 else None)
          else None)"

definition scale10 :: "rat \<Rightarrow> int \<Rightarrow> rat" where
  "scale10 m e = (if 0 \<le> e then m * 10 ^ nat e else m / 10 ^ nat (- e))"

text \<open>The fraction after the integer digits: its digits and what follows them.\<close>

definition fraction_part :: "jsstring \<Rightarrow> jsstring \<times> jsstring" where
  "fraction_part r =
     (case r of
        [] \<Rightarrow> ([], [])
      | c # r' \<Rightarrow>
          if c = 46 then (takeWhile (is_digit_in 10) r', dropWhile (is_digit_in 10) r')
          else ([], r))"

definition unsigned_decimal :: "jsstring \<Rightarrow> number" where
  "unsigned_decimal u =
     (if u = [73, 110, 102, 105, 110, 105, 116, 121] then PosInf
      else
        let ip = takeWhile (is_digit_in 10) u;
            (fp, r) = fraction_part (dropWhile (is_digit_in 10) u)
        in if ip = [] \<and> fp = [] then NaN
           else
             (case exponent_part r of
                None \<Rightarrow> NaN
              | Some e \<Rightarrow>
                  Fin (scale10
                    (of_nat (digits_value 10 ip)
                       + of_nat (digits_value 10 fp) / 10 ^ length fp) e)))"

definition signed_decimal :: "jsstring \<Rightarrow> number" where
  "signed_decimal t =
     (case t of
        [] \<Rightarrow> NaN
      | c # u \<Rightarrow>
          if c = 43 then unsigned_decimal u
          else if c = 45 then js_neg (unsigned_decimal u)
          else unsigned_decimal t)"

definition radix_literal :: "nat \<Rightarrow> jsstring \<Rightarrow> number" where
  "radix_literal base ds =
     (if all_digits base ds then Fin (of_nat (digits_value base ds)) else NaN)"

definition str_numeric_literal :: "jsstring \<Rightarrow> number" where
  "str_numeric_literal t =
     (case t of
        z # x # ds \<Rightarrow>
          if z = 48 \<and> (x = 120 \<or> x = 88) then radix_literal 16 ds
          else if z = 48 \<and> (x = 111 \<or> x = 79) then radix_literal 8 ds
          else if z = 48 \<and> (x = 98 \<or> x = 66) then radix_literal 2 ds
          else signed_decimal t
      | _ \<Rightarrow> signed_decimal t)"

definition Number :: "jsstring \<Rightarrow> number" where
  "Number s = (let t = trim s in if t = [] then Fin 0 else str_numeric_literal t)"

section \<open>darts.ts\<close>

text \<open>
  \<open>splitted[i]\<close>: an array read. Out of range it is \<open>undefined\<close>, which every use
  in the loop (a comparison, a product) coerces to NaN.
\<close>

definition elem :: "number list \<Rightarrow> nat \<Rightarrow> number" where
  "elem splitted i = (if i < length splitted then splitted ! i else NaN)"

text \<open>
  The loop \<open>for (let i = 0; i < splitted.length - 1; i += 2)\<close> with its two
  \<open>continue\<close> guards, as a function of the array, the index and the running total.
\<close>

function for_loop :: "number list \<Rightarrow> nat \<Rightarrow> number \<Rightarrow> number" where
  "for_loop splitted i points =
     (if int i < int (length splitted) - 1 then
        (let multiplier = elem splitted i;
             sector = elem splitted (i + 1)
         in if js_lt multiplier (Fin 1) \<or> js_gt multiplier (Fin 3) then
              for_loop splitted (i + 2) points
            else if js_lt sector (Fin 0) \<or> js_gt sector (Fin 25) then
              for_loop splitted (i + 2) points
            else for_loop splitted (i + 2) (js_add points (js_mul multiplier sector)))
      else points)"
  by pat_completeness auto
termination
  by (relation "measure (\<lambda>(splitted, i, points). length splitted - i)") auto

declare for_loop.simps [simp del]

text \<open>
  A call either returns a value or throws. \<open>calcPoints\<close> has no \<open>throw\<close>, and
  \<open>split\<close>, \<open>map\<close> and \<open>Number\<close> throw on no string.
\<close>

definition calcPoints :: "jsstring \<Rightarrow> error + number" where
  "calcPoints hits =
     (let splitted = map Number (split_sep hits)
      in Inr (for_loop splitted 0 (Fin 0)))"

text \<open>
  \<open>possibleCheckout\<close> writes its argument to the console and throws. The console is
  the list of values logged so far.
\<close>

definition possibleCheckout :: "number \<Rightarrow> number list \<Rightarrow> number list \<times> (error + jsstring)" where
  "possibleCheckout x console =
     (console @ [x], Inl (Error (str ''not implemented yet'')))"

section \<open>The specification's words\<close>

text \<open>
  The score as the specification words it: the integers are read two at a time, the
  first of each pair the multiplier and the second the sector; a pair counts its product
  when the multiplier is in 1..3 and the sector in 0..25, and counts 0 otherwise. A
  trailing single integer forms no pair.
\<close>

fun pairs :: "int list \<Rightarrow> (int \<times> int) list" where
  "pairs (m # s # rest) = (m, s) # pairs rest"
| "pairs rest = []"

definition pair_points :: "int \<times> int \<Rightarrow> int" where
  "pair_points p =
     (case p of (m, s) \<Rightarrow> if 1 \<le> m \<and> m \<le> 3 \<and> 0 \<le> s \<and> s \<le> 25 then m * s else 0)"

definition spec_score :: "int list \<Rightarrow> int" where
  "spec_score ks = sum_list (map pair_points (pairs ks))"

text \<open>
  The input with its final token removed: what stands before the last separator, and
  the empty string when there is no separator.
\<close>

definition drop_last_token :: "jsstring \<Rightarrow> jsstring" where
  "drop_last_token hits = rev (drop 1 (dropWhile (\<lambda>x. \<not> is_sep x) (rev hits)))"

text \<open>The number that an integer is, and the numbers that are non-negative integers.\<close>

definition of_integer :: "int \<Rightarrow> number" where
  "of_integer k = Fin (of_int k)"

definition is_nonneg_integer :: "number \<Rightarrow> bool" where
  "is_nonneg_integer n = (case n of Fin q \<Rightarrow> 0 \<le> q \<and> of_int \<lfloor>q\<rfloor> = q | _ \<Rightarrow> False)"

section \<open>Evaluating the embedding\<close>

lemmas eval_defs =
  calcPoints_def split_sep_def str_def is_sep_def is_space_def Number_def trim_def
  str_numeric_literal_def radix_literal_def signed_decimal_def unsigned_decimal_def
  fraction_part_def exponent_part_def all_digits_def is_digit_in_def digit_val_def
  digits_value_def scale10_def elem_def js_gt_def of_integer_def spec_score_def
  pair_points_def

lemma for_loop_step:
  "for_loop splitted i points =
     (if int i < int (length splitted) - 1 then
        (if js_lt (elem splitted i) (Fin 1) \<or> js_gt (elem splitted i) (Fin 3) then
           for_loop splitted (i + 2) points
         else if js_lt (elem splitted (i + 1)) (Fin 0) \<or> js_gt (elem splitted (i + 1)) (Fin 25) then
           for_loop splitted (i + 2) points
         else for_loop splitted (i + 2)
                (js_add points (js_mul (elem splitted i) (elem splitted (i + 1)))))
      else points)"
  by (subst for_loop.simps) (simp add: Let_def)

section \<open>The loop on an array of integers\<close>

lemma js_lt_of_integer [simp]:
  "js_lt (of_integer a) (Fin (numeral b)) = (a < numeral b)"
  "js_lt (Fin (numeral b)) (of_integer a) = (numeral b < a)"
  "js_lt (of_integer a) (Fin 1) = (a < 1)"
  "js_lt (of_integer a) (Fin 0) = (a < 0)"
  by (simp_all add: of_integer_def)

lemma elem_map: "i < length ks \<Longrightarrow> elem (map f ks) i = f (ks ! i)"
  by (simp add: elem_def)

lemma spec_score_drop:
  assumes "i + 1 < length ks"
  shows "spec_score (drop i ks) = pair_points (ks ! i, ks ! (i + 1)) + spec_score (drop (i + 2) ks)"
proof -
  have "drop i ks = ks ! i # ks ! (i + 1) # drop (i + 2) ks"
    using assms by (simp add: Cons_nth_drop_Suc)
  then show ?thesis by (simp add: spec_score_def)
qed

lemma spec_score_short:
  assumes "\<not> i + 1 < length ks"
  shows "spec_score (drop i ks) = 0"
proof (cases "drop i ks")
  case Nil
  then show ?thesis by (simp add: spec_score_def)
next
  case (Cons x xs)
  have "length (drop i ks) \<le> 1" using assms by simp
  with Cons have "xs = []" by simp
  with Cons show ?thesis by (simp add: spec_score_def)
qed

text \<open>
  The invariant of the loop on integers: the running total plus the score of the pairs
  still ahead is what the loop returns.
\<close>

lemma for_loop_integers:
  "for_loop (map of_integer ks) i (of_integer a) = of_integer (a + spec_score (drop i ks))"
proof (induction "length ks - i" arbitrary: i a rule: less_induct)
  case less
  show ?case
  proof (cases "i + 1 < length ks")
    case True
    then have IH: "for_loop (map of_integer ks) (Suc (Suc i)) (of_integer b) =
        of_integer (b + spec_score (drop (Suc (Suc i)) ks))" for b
      using less[of "Suc (Suc i)" b] by simp
    have step: "js_add (of_integer a) (js_mul (of_integer m) (of_integer s)) = of_integer (a + m * s)"
      for m s
      by (simp add: of_integer_def)
    from True show ?thesis
      by (subst for_loop_step)
        (auto simp add: elem_map IH spec_score_drop pair_points_def js_gt_def step add.assoc)
  next
    case False
    then show ?thesis
      by (subst for_loop_step) (auto simp add: spec_score_short)
  qed
qed

lemma calcPoints_integers:
  assumes "map Number (split_sep hits) = map of_integer ks"
  shows "calcPoints hits = Inr (of_integer (spec_score ks))"
proof -
  have "for_loop (map of_integer ks) 0 (of_integer 0) = of_integer (0 + spec_score (drop 0 ks))"
    by (rule for_loop_integers)
  then show ?thesis
    using assms by (simp add: calcPoints_def of_integer_def)
qed

lemma pair_points_nonneg: "0 \<le> pair_points p"
  by (cases p) (simp add: pair_points_def)

lemma spec_score_nonneg: "0 \<le> spec_score ks"
  unfolding spec_score_def by (rule sum_list_nonneg) (auto simp add: pair_points_nonneg)

lemma pairs_append:
  "even (length pre) \<Longrightarrow> pairs (pre @ rest) = pairs pre @ pairs rest"
  by (induction pre rule: pairs.induct) simp_all

lemma spec_score_insert:
  assumes "even (length pre)"
  shows "spec_score (pre @ m # s # post) = spec_score (pre @ post) + pair_points (m, s)"
  using assms by (simp add: spec_score_def pairs_append)

section \<open>Tokens\<close>

lemma split_from_no_sep:
  "list_all (\<lambda>x. \<not> is_sep x) tok \<Longrightarrow> split_from cur tok = [cur @ tok]"
  by (induction tok arbitrary: cur) simp_all

lemma split_from_append:
  assumes "is_sep c" and "list_all (\<lambda>x. \<not> is_sep x) tok"
  shows "split_from cur (hits @ c # tok) = split_from cur hits @ [tok]"
  using assms by (induction hits arbitrary: cur) (simp_all add: split_from_no_sep)

lemma split_from_tokens:
  "list_all (\<lambda>x. \<not> is_sep x) cur \<Longrightarrow>
   list_all (list_all (\<lambda>x. \<not> is_sep x)) (split_from cur hits)"
  by (induction hits arbitrary: cur) simp_all

section \<open>The last element of an array of odd length\<close>

lemma for_loop_snoc:
  assumes "even (length xs)" and "even i"
  shows "for_loop (xs @ [x]) i p = for_loop xs i p"
  using assms
proof (induction "length xs - i" arbitrary: i p rule: less_induct)
  case less
  show ?case
  proof (cases "i < length xs")
    case True
    with less.prems have lt: "Suc i < length xs"
      by (metis Suc_lessI even_Suc)
    have IH: "for_loop (xs @ [x]) (Suc (Suc i)) q = for_loop xs (Suc (Suc i)) q" for q
      using less.hyps[of "Suc (Suc i)" q] less.prems lt by simp
    have e: "elem (xs @ [x]) i = elem xs i" "elem (xs @ [x]) (Suc i) = elem xs (Suc i)"
      using lt by (simp_all add: elem_def nth_append)
    show ?thesis
      using lt by (subst for_loop_step, subst (2) for_loop_step) (simp add: IH e)
  next
    case False
    then show ?thesis
      by (subst for_loop_step, subst (2) for_loop_step) simp
  qed
qed

lemma for_loop_single: "for_loop [x] 0 p = p"
  by (subst for_loop_step) simp

lemma drop_last_token_no_sep:
  assumes "list_all (\<lambda>x. \<not> is_sep x) tok"
  shows "drop_last_token tok = []"
proof -
  have e: "dropWhile (\<lambda>x. \<not> is_sep x) (rev tok) = []"
    using assms by (simp add: list_all_iff)
  show ?thesis by (simp only: drop_last_token_def e drop_Nil rev.simps)
qed

lemma drop_last_token_append:
  assumes "is_sep c" and "list_all (\<lambda>x. \<not> is_sep x) tok"
  shows "drop_last_token (hits @ c # tok) = hits"
proof -
  have "dropWhile (\<lambda>x. \<not> is_sep x) (rev tok @ c # rev hits) = c # rev hits"
    using assms by (simp add: dropWhile_append3 list_all_iff)
  then show ?thesis by (simp add: drop_last_token_def)
qed

lemma last_separator:
  "list_all (\<lambda>x. \<not> is_sep x) hits
   \<or> (\<exists>pre c tok. hits = pre @ c # tok \<and> is_sep c \<and> list_all (\<lambda>x. \<not> is_sep x) tok)"
proof (cases "\<exists>x\<in>set hits. is_sep x")
  case True
  then obtain pre c tok where "hits = pre @ c # tok" "is_sep c" "\<forall>z\<in>set tok. \<not> is_sep z"
    using split_list_last_prop[of hits is_sep] by blast
  then show ?thesis by (auto simp add: list_all_iff)
next
  case False
  then show ?thesis by (simp add: list_all_iff)
qed

lemma calcPoints_snoc_token:
  assumes "is_sep c" and "list_all (\<lambda>x. \<not> is_sep x) tok"
    and "odd (length (split_sep (hits @ c # tok)))"
  shows "calcPoints (hits @ c # tok) = calcPoints hits"
proof -
  have s: "split_sep (hits @ c # tok) = split_sep hits @ [tok]"
    using assms by (simp add: split_sep_def split_from_append)
  with assms have "even (length (map Number (split_sep hits)))" by simp
  then have "for_loop (map Number (split_sep hits) @ [Number tok]) 0 (Fin 0)
      = for_loop (map Number (split_sep hits)) 0 (Fin 0)"
    by (rule for_loop_snoc) simp
  then show ?thesis
    by (simp add: calcPoints_def s)
qed

lemma calcPoints_single_token:
  assumes "list_all (\<lambda>x. \<not> is_sep x) tok"
  shows "calcPoints tok = calcPoints []"
proof -
  from assms have "split_sep tok = [tok]"
    by (simp add: split_sep_def split_from_no_sep)
  then show ?thesis
    by (simp add: calcPoints_def split_sep_def for_loop_single)
qed

section \<open>No token is negative\<close>

lemma set_trim: "set (trim s) \<subseteq> set s"
proof -
  have "set (trim s) \<subseteq> set (dropWhile is_space s)"
    unfolding trim_def using set_dropWhileD[of _ is_space "rev (dropWhile is_space s)"] by auto
  also have "\<dots> \<subseteq> set s"
    using set_dropWhileD[of _ is_space s] by auto
  finally show ?thesis .
qed

lemma scale10_nonneg: "0 \<le> m \<Longrightarrow> 0 \<le> scale10 m e"
  by (simp add: scale10_def)

lemma unsigned_decimal_nonneg: "\<not> js_lt (unsigned_decimal u) (Fin 0)"
  by (auto simp add: unsigned_decimal_def Let_def scale10_nonneg not_less
      split: prod.splits option.splits)

lemma radix_literal_nonneg: "\<not> js_lt (radix_literal b ds) (Fin 0)"
  by (simp add: radix_literal_def)

lemma signed_decimal_nonneg: "45 \<notin> set t \<Longrightarrow> \<not> js_lt (signed_decimal t) (Fin 0)"
  by (auto simp add: signed_decimal_def unsigned_decimal_nonneg split: list.splits)

lemma str_numeric_literal_nonneg: "45 \<notin> set t \<Longrightarrow> \<not> js_lt (str_numeric_literal t) (Fin 0)"
  using signed_decimal_nonneg[of t]
  by (auto simp add: str_numeric_literal_def radix_literal_nonneg split: list.splits)

lemma Number_nonneg: "45 \<notin> set t \<Longrightarrow> \<not> js_lt (Number t) (Fin 0)"
  using set_trim[of t] str_numeric_literal_nonneg[of "trim t"]
  by (auto simp add: Number_def Let_def)

section \<open>Not-a-number in the running total\<close>

lemma for_loop_NaN: "for_loop splitted i NaN = NaN"
proof (induction "length splitted - i" arbitrary: i rule: less_induct)
  case less
  show ?case
  proof (cases "i + 1 < length splitted")
    case True
    then have "for_loop splitted (Suc (Suc i)) NaN = NaN"
      using less[of "Suc (Suc i)"] by simp
    then show ?thesis by (subst for_loop_step) simp
  next
    case False
    then show ?thesis by (subst for_loop_step) auto
  qed
qed

section \<open>Tokens written with decimal digits\<close>

lemma digit_not_space: "is_digit_in 10 c \<Longrightarrow> \<not> is_space c"
  by (auto simp add: is_digit_in_def digit_val_def is_space_def split: if_splits)

lemma digit_range: "is_digit_in 10 c \<Longrightarrow> 48 \<le> c \<and> c \<le> 57"
  by (auto simp add: is_digit_in_def digit_val_def split: if_splits)

lemma trim_digits:
  assumes "all_digits 10 t"
  shows "trim t = t"
proof -
  from assms have ne: "t \<noteq> []" and all: "\<forall>c\<in>set t. is_digit_in 10 c"
    by (simp_all add: all_digits_def list_all_iff)
  have "\<not> is_space (hd t)" using ne all by (simp add: digit_not_space)
  then have 1: "dropWhile is_space t = t" using ne by (cases t) simp_all
  have "\<not> is_space (hd (rev t))" using ne all by (simp add: digit_not_space hd_rev)
  then have 2: "dropWhile is_space (rev t) = rev t" using ne by (cases "rev t") simp_all
  show ?thesis by (simp add: trim_def 1 2)
qed

lemma unsigned_decimal_digits:
  assumes "all_digits 10 t"
  shows "unsigned_decimal t = of_integer (int (digits_value 10 t))"
proof -
  from assms have ne: "t \<noteq> []" and all: "\<forall>c\<in>set t. is_digit_in 10 c"
    by (simp_all add: all_digits_def list_all_iff)
  have tk: "takeWhile (is_digit_in 10) t = t" using all by (simp add: takeWhile_eq_all_conv)
  have dr: "dropWhile (is_digit_in 10) t = []" using all by simp
  have "\<not> is_digit_in 10 73" by (simp add: is_digit_in_def digit_val_def)
  then have inf: "t \<noteq> [73, 110, 102, 105, 110, 105, 116, 121]" using all by auto
  show ?thesis
    using ne inf
    by (simp add: unsigned_decimal_def tk dr fraction_part_def exponent_part_def scale10_def
        digits_value_def of_integer_def)
qed

lemma Number_digits:
  assumes "all_digits 10 t"
  shows "Number t = of_integer (int (digits_value 10 t))"
proof -
  from assms have ne: "t \<noteq> []" and all: "\<forall>c\<in>set t. is_digit_in 10 c"
    by (simp_all add: all_digits_def list_all_iff)
  have sd: "signed_decimal t = unsigned_decimal t"
    using ne all digit_range[of "hd t"] by (cases t) (auto simp add: signed_decimal_def)
  have "str_numeric_literal t = signed_decimal t"
  proof (cases t)
    case Nil
    then show ?thesis by (simp add: str_numeric_literal_def)
  next
    case (Cons z r)
    show ?thesis
    proof (cases r)
      case Nil
      with Cons show ?thesis by (simp add: str_numeric_literal_def)
    next
      case (Cons x ds)
      with \<open>t = z # r\<close> all have "48 \<le> x \<and> x \<le> 57" by (simp add: digit_range)
      with Cons \<open>t = z # r\<close> show ?thesis by (auto simp add: str_numeric_literal_def)
    qed
  qed
  with sd show ?thesis
    using ne by (simp add: Number_def trim_digits[OF assms] unsigned_decimal_digits[OF assms])
qed

section \<open>No token holds a hyphen\<close>

lemma tokens_no_hyphen: "list_all (\<lambda>t. 45 \<notin> set t) (split_sep hits)"
proof -
  have "list_all (list_all (\<lambda>x. \<not> is_sep x)) (split_from [] hits)"
    by (rule split_from_tokens) simp
  then show ?thesis
    by (auto simp add: split_sep_def list_all_iff is_sep_def)
qed

lemma splitted_nonneg: "\<not> js_lt (elem (map Number (split_sep hits)) i) (Fin 0)"
  using tokens_no_hyphen[of hits] by (auto simp add: elem_def list_all_iff Number_nonneg)

section \<open>The checkout advisor\<close>

text \<open>
  C1 at the inputs 441 and 2: the call throws at both. The specification asks for the
  string "No Checkout" at 441 (odd), as the test of the repository does, and for the
  string "Double 1" at 2 (even, and 2/2 = 1 lies in 1..20).
\<close>

theorem possibleCheckout_441_throws:
  "snd (possibleCheckout (Fin 441) []) = Inl (Error (str ''not implemented yet''))
   \<and> snd (possibleCheckout (Fin 441) []) \<noteq> Inr (str ''No Checkout'')
   \<and> snd (possibleCheckout (Fin 2) []) = Inl (Error (str ''not implemented yet''))
   \<and> snd (possibleCheckout (Fin 2) []) \<noteq> Inr (str ''Double 1'')"
  by (simp add: possibleCheckout_def)

text \<open>
  C2 at the input 480: the call throws, where the specification asks for a defined
  result and no exception on every integer, and where the test of the repository
  expects the string "No Checkout".
\<close>

theorem possibleCheckout_480_throws:
  "snd (possibleCheckout (Fin 480) []) = Inl (Error (str ''not implemented yet''))"
  by (simp add: possibleCheckout_def)

text \<open>
  C5 at the input 477: the call throws, where the specification and the test of the
  repository expect the string "Double 12".
\<close>

theorem possibleCheckout_477_throws:
  "snd (possibleCheckout (Fin 477) []) = Inl (Error (str ''not implemented yet''))
   \<and> snd (possibleCheckout (Fin 477) []) \<noteq> Inr (str ''Double 12'')"
  by (simp add: possibleCheckout_def)

section \<open>The score parser\<close>

text \<open>
  C3: for every input string whose tokens, split at white space and hyphens, coerce to
  a sequence of integers \<open>ks\<close>, \<open>calcPoints\<close> returns the score of \<open>ks\<close>: the
  integers read left to right as (multiplier, sector) pairs, the sum of multiplier times
  sector over the pairs with multiplier in 1..3 and sector in 0..25, and 0 for every
  other pair.
\<close>

theorem calcPoints_sum_of_valid_pairs:
  assumes "map Number (split_sep hits) = map of_integer ks"
  shows "calcPoints hits = Inr (of_integer (spec_score ks))"
  using assms by (rule calcPoints_integers)

text \<open>
  The theorem at a string with a hyphen, a multiplier 4, a sector 26 and a trailing
  token: 3 * 20 + 1 * 17 = 77.
\<close>

theorem calcPoints_sum_of_valid_pairs_witness:
  "map Number (split_sep (str ''3 20-4 5 2 26 1 17 7''))
     = map of_integer [3, 20, 4, 5, 2, 26, 1, 17, 7]
   \<and> calcPoints (str ''3 20-4 5 2 26 1 17 7'') = Inr (Fin 77)"
proof -
  have h: "map Number (split_sep (str ''3 20-4 5 2 26 1 17 7''))
     = map of_integer [3, 20, 4, 5, 2, 26, 1, 17, 7]"
    by (simp add: eval_defs)
  have "spec_score [3, 20, 4, 5, 2, 26, 1, 17, 7] = 77"
    by (simp add: spec_score_def pair_points_def)
  with calcPoints_sum_of_valid_pairs [OF h] h show ?thesis
    by (simp add: of_integer_def)
qed

text \<open>
  C4: \<open>calcPoints("3 20 1 17 2 4")\<close> is 85, \<open>calcPoints("2 15 1 18 3 19")\<close> is 105
  and \<open>calcPoints("3 20 1 5")\<close> is 65.
\<close>

theorem calcPoints_examples:
  "calcPoints (str ''3 20 1 17 2 4'') = Inr (Fin 85)
   \<and> calcPoints (str ''2 15 1 18 3 19'') = Inr (Fin 105)
   \<and> calcPoints (str ''3 20 1 5'') = Inr (Fin 65)"
  by (simp add: eval_defs for_loop_step)


text \<open>
  The other boundaries hold on every string whose tokens coerce to integers: a pair with
  multiplier 0 or 4, or with sector 26, adds nothing, so that the call returns the score
  of the tokens without the pair; a pair with multiplier 1 or 3 and sector 0 or 25 adds
  its product. The pair stands anywhere among the tokens, after an even number of them.
\<close>

theorem range_boundaries:
  assumes "even (length pre)"
      and "map Number (split_sep hits) = map of_integer (pre @ m # s # post)"
  shows "(m = 0 \<or> m = 4 \<or> s = 26 \<longrightarrow>
            calcPoints hits = Inr (of_integer (spec_score (pre @ post))))
       \<and> ((m = 1 \<or> m = 3) \<and> (s = 0 \<or> s = 25) \<longrightarrow>
            calcPoints hits = Inr (of_integer (spec_score (pre @ post) + m * s)))"
proof -
  have total: "calcPoints hits = Inr (of_integer (spec_score (pre @ post) + pair_points (m, s)))"
    using calcPoints_integers [OF assms(2)] assms(1) by (simp add: spec_score_insert)
  have skip: "m = 0 \<or> m = 4 \<or> s = 26 \<Longrightarrow> pair_points (m, s) = 0"
    by (auto simp add: pair_points_def)
  have count: "(m = 1 \<or> m = 3) \<and> (s = 0 \<or> s = 25) \<Longrightarrow> pair_points (m, s) = m * s"
    by (auto simp add: pair_points_def)
  show ?thesis
    using total skip count by auto
qed

text \<open>
  The theorem at the multipliers 0 and 4, the sector 26, and the edges (3, 25) and
  (1, 0), each between the pairs (3, 20) and (1, 5).
\<close>

theorem range_boundaries_witness:
  "calcPoints (str ''3 20 0 20 1 5'') = Inr (Fin 65)
   \<and> calcPoints (str ''3 20 4 20 1 5'') = Inr (Fin 65)
   \<and> calcPoints (str ''3 20 2 26 1 5'') = Inr (Fin 65)
   \<and> calcPoints (str ''3 20 3 25 1 5'') = Inr (Fin 140)
   \<and> calcPoints (str ''3 20 1 0 1 5'') = Inr (Fin 65)"
proof -
  have e: "even (length [3, 20 :: int])" by simp
  have s: "spec_score ([3, 20] @ [1, 5]) = 65"
    by (simp add: spec_score_def pair_points_def)
  have t1: "map Number (split_sep (str ''3 20 0 20 1 5'')) = map of_integer ([3, 20] @ 0 # 20 # [1, 5])"
    by (simp add: eval_defs)
  have t2: "map Number (split_sep (str ''3 20 4 20 1 5'')) = map of_integer ([3, 20] @ 4 # 20 # [1, 5])"
    by (simp add: eval_defs)
  have t3: "map Number (split_sep (str ''3 20 2 26 1 5'')) = map of_integer ([3, 20] @ 2 # 26 # [1, 5])"
    by (simp add: eval_defs)
  have t4: "map Number (split_sep (str ''3 20 3 25 1 5'')) = map of_integer ([3, 20] @ 3 # 25 # [1, 5])"
    by (simp add: eval_defs)
  have t5: "map Number (split_sep (str ''3 20 1 0 1 5'')) = map of_integer ([3, 20] @ 1 # 0 # [1, 5])"
    by (simp add: eval_defs)
  have c1: "calcPoints (str ''3 20 0 20 1 5'') = Inr (Fin 65)"
    using range_boundaries [OF e t1] s by (simp add: of_integer_def)
  have c2: "calcPoints (str ''3 20 4 20 1 5'') = Inr (Fin 65)"
    using range_boundaries [OF e t2] s by (simp add: of_integer_def)
  have c3: "calcPoints (str ''3 20 2 26 1 5'') = Inr (Fin 65)"
    using range_boundaries [OF e t3] s by (simp add: of_integer_def)
  have c4: "calcPoints (str ''3 20 3 25 1 5'') = Inr (Fin 140)"
    using range_boundaries [OF e t4] s by (simp add: of_integer_def)
  have c5: "calcPoints (str ''3 20 1 0 1 5'') = Inr (Fin 65)"
    using range_boundaries [OF e t5] s by (simp add: of_integer_def)
  from c1 c2 c3 c4 c5 show ?thesis by blast
qed

text \<open>
  C7: for every input string whose tokens are odd in number, the last token is ignored:
  \<open>calcPoints\<close> returns what it returns for the input with its final token
  removed. When the input has two tokens or more, the tokens of that shorter input are
  the tokens of the input without the last.
\<close>

theorem trailing_token_ignored:
  "(odd (length (split_sep hits)) \<longrightarrow> calcPoints hits = calcPoints (drop_last_token hits))
   \<and> (1 < length (split_sep hits) \<longrightarrow>
        split_sep (drop_last_token hits) = butlast (split_sep hits))"
proof (intro conjI impI)
  assume odd: "odd (length (split_sep hits))"
  from last_separator[of hits] show "calcPoints hits = calcPoints (drop_last_token hits)"
  proof
    assume one: "list_all (\<lambda>x. \<not> is_sep x) hits"
    then have "calcPoints hits = calcPoints []"
      by (rule calcPoints_single_token)
    with one show ?thesis
      by (simp only: drop_last_token_no_sep)
  next
    assume "\<exists>pre c tok. hits = pre @ c # tok \<and> is_sep c \<and> list_all (\<lambda>x. \<not> is_sep x) tok"
    then obtain pre c tok where
      h: "hits = pre @ c # tok" "is_sep c" "list_all (\<lambda>x. \<not> is_sep x) tok"
      by blast
    with odd have "calcPoints (pre @ c # tok) = calcPoints pre"
      using calcPoints_snoc_token[of c tok pre] by simp
    with h show ?thesis
      by (simp only: drop_last_token_append)
  qed
next
  assume many: "1 < length (split_sep hits)"
  from last_separator[of hits] show "split_sep (drop_last_token hits) = butlast (split_sep hits)"
  proof
    assume "list_all (\<lambda>x. \<not> is_sep x) hits"
    then have "split_sep hits = [hits]"
      by (simp add: split_sep_def split_from_no_sep)
    with many show ?thesis by simp
  next
    assume "\<exists>pre c tok. hits = pre @ c # tok \<and> is_sep c \<and> list_all (\<lambda>x. \<not> is_sep x) tok"
    then obtain pre c tok where
      h: "hits = pre @ c # tok" "is_sep c" "list_all (\<lambda>x. \<not> is_sep x) tok"
      by blast
    then show ?thesis
      by (simp add: drop_last_token_append split_sep_def split_from_append)
  qed
qed

text \<open>The theorem at "3 20 1 17 2", whose last token 2 has no sector.\<close>

theorem trailing_token_ignored_witness:
  "odd (length (split_sep (str ''3 20 1 17 2'')))
   \<and> drop_last_token (str ''3 20 1 17 2'') = str ''3 20 1 17''
   \<and> calcPoints (str ''3 20 1 17 2'') = calcPoints (str ''3 20 1 17'')
   \<and> calcPoints (str ''3 20 1 17'') = Inr (Fin 77)
   \<and> 1 < length (split_sep (str ''3 20 1 17 2''))
   \<and> split_sep (str ''3 20 1 17'') = butlast (split_sep (str ''3 20 1 17 2''))"
proof -
  have o: "odd (length (split_sep (str ''3 20 1 17 2'')))"
    by (simp add: eval_defs)
  have m: "1 < length (split_sep (str ''3 20 1 17 2''))"
    by (simp add: eval_defs)
  have d: "drop_last_token (str ''3 20 1 17 2'') = str ''3 20 1 17''"
    by (simp add: drop_last_token_def eval_defs)
  have v: "calcPoints (str ''3 20 1 17'') = Inr (Fin 77)"
    by (simp add: eval_defs for_loop_step)
  from trailing_token_ignored [of "str ''3 20 1 17 2''"] o m d v show ?thesis
    by simp
qed

text \<open>
  C8, amended: for every input string whose tokens all coerce to integers, the value
  that \<open>calcPoints\<close> returns is a non-negative integer.
\<close>

theorem calcPoints_nonneg_integer:
  assumes "map Number (split_sep hits) = map of_integer ks"
  shows "\<exists>n. calcPoints hits = Inr n \<and> is_nonneg_integer n"
proof -
  have "calcPoints hits = Inr (of_integer (spec_score ks))"
    using assms by (rule calcPoints_integers)
  moreover have "is_nonneg_integer (of_integer (spec_score ks))"
    by (simp add: is_nonneg_integer_def of_integer_def spec_score_nonneg)
  ultimately show ?thesis by blast
qed

text \<open>The theorem at a string with a hexadecimal and a binary token.\<close>

theorem calcPoints_nonneg_integer_witness:
  "map Number (split_sep (str ''1 17-0x2 0b11 9''))
     = map of_integer [1, 17, 2, 3, 9]
   \<and> calcPoints (str ''1 17-0x2 0b11 9'') = Inr (Fin 23) \<and> is_nonneg_integer (Fin 23)"
proof -
  have h: "map Number (split_sep (str ''1 17-0x2 0b11 9'')) = map of_integer [1, 17, 2, 3, 9]"
    by (simp add: eval_defs)
  have v: "calcPoints (str ''1 17-0x2 0b11 9'') = Inr (Fin 23)"
    by (simp add: eval_defs for_loop_step)
  from calcPoints_nonneg_integer [OF h] h v show ?thesis by auto
qed

text \<open>
  C8 as the specification states it fails at "x 20": the call returns NaN, which is no
  non-negative integer.
\<close>

theorem calcPoints_x_20_not_nonneg_integer:
  "calcPoints (str ''x 20'') = Inr NaN \<and> \<not> is_nonneg_integer NaN"
  by (simp add: eval_defs for_loop_step is_nonneg_integer_def)

text \<open>
  C9: \<open>calcPoints\<close> returns on every string. The token "x" coerces to NaN; NaN
  is neither below 1 nor above 3, neither below 0 nor above 25, so it passes both
  guards; a product with NaN is NaN, a sum with NaN is NaN, and a running total that is
  NaN stays NaN to the end of the loop. So \<open>calcPoints("x 20")\<close> is NaN, and so are
  "1 x", where the sector is NaN, and "x 20 3 20", where a valid pair follows.
\<close>

theorem calcPoints_NaN_token:
  "(\<exists>n. calcPoints hits = Inr n)
   \<and> Number (str ''x'') = NaN
   \<and> \<not> js_lt NaN (Fin 1) \<and> \<not> js_gt NaN (Fin 3) \<and> \<not> js_lt NaN (Fin 0) \<and> \<not> js_gt NaN (Fin 25)
   \<and> js_mul NaN y = NaN \<and> js_mul x NaN = NaN \<and> js_add p NaN = NaN
   \<and> for_loop splitted i NaN = NaN
   \<and> calcPoints (str ''x 20'') = Inr NaN
   \<and> calcPoints (str ''1 x'') = Inr NaN
   \<and> calcPoints (str ''x 20 3 20'') = Inr NaN"
proof -
  have 1: "\<exists>n. calcPoints hits = Inr n" by (simp add: calcPoints_def)
  have 2: "Number (str ''x'') = NaN" by (simp add: eval_defs)
  have 3: "js_mul x NaN = NaN" by (cases x) simp_all
  have 4: "js_add p NaN = NaN" by (cases p) simp_all
  have 5: "calcPoints (str ''x 20'') = Inr NaN" by (simp add: eval_defs for_loop_step)
  have 6: "calcPoints (str ''1 x'') = Inr NaN" by (simp add: eval_defs for_loop_step)
  have 7: "calcPoints (str ''x 20 3 20'') = Inr NaN" by (simp add: eval_defs for_loop_step)
  from 1 2 3 4 5 6 7 show ?thesis by (simp add: js_gt_def for_loop_NaN)
qed

text \<open>
  C10: for every input string, no token holds a hyphen-minus, no element of the array
  \<open>splitted\<close> is below 0, and the guard \<open>sector < 0\<close> is false at every index.
  The loop on that array satisfies its own equation with the guard removed.
\<close>

theorem negative_sector_guard_dead:
  "list_all (\<lambda>t. 45 \<notin> set t) (split_sep hits)
   \<and> list_all (\<lambda>n. \<not> js_lt n (Fin 0)) (map Number (split_sep hits))
   \<and> \<not> js_lt (elem (map Number (split_sep hits)) i) (Fin 0)
   \<and> for_loop (map Number (split_sep hits)) i points =
       (if int i < int (length (map Number (split_sep hits))) - 1 then
          (if js_lt (elem (map Number (split_sep hits)) i) (Fin 1)
              \<or> js_gt (elem (map Number (split_sep hits)) i) (Fin 3) then
             for_loop (map Number (split_sep hits)) (i + 2) points
           else if js_gt (elem (map Number (split_sep hits)) (i + 1)) (Fin 25) then
             for_loop (map Number (split_sep hits)) (i + 2) points
           else for_loop (map Number (split_sep hits)) (i + 2)
                  (js_add points
                     (js_mul (elem (map Number (split_sep hits)) i)
                             (elem (map Number (split_sep hits)) (i + 1)))))
        else points)"
proof -
  have a: "list_all (\<lambda>n. \<not> js_lt n (Fin 0)) (map Number (split_sep hits))"
    using tokens_no_hyphen[of hits] by (auto simp add: list_all_iff Number_nonneg)
  have b: "\<not> js_lt (elem (map Number (split_sep hits)) (i + 1)) (Fin 0)"
    by (rule splitted_nonneg)
  show ?thesis
    by (subst for_loop_step) (use a b in \<open>simp add: tokens_no_hyphen splitted_nonneg\<close>)
qed

section \<open>Strings of decimal tokens\<close>

text \<open>
  When every token is a non-empty run of decimal digits, each token coerces to the
  integer it writes, and \<open>calcPoints\<close> returns the score of these integers.
\<close>

theorem calcPoints_digit_tokens:
  assumes "list_all (all_digits 10) (split_sep hits)"
  shows "calcPoints hits =
     Inr (of_integer (spec_score (map (\<lambda>t. int (digits_value 10 t)) (split_sep hits))))"
proof -
  have "map Number (split_sep hits)
      = map of_integer (map (\<lambda>t. int (digits_value 10 t)) (split_sep hits))"
    using assms by (simp add: list_all_iff Number_digits)
  then show ?thesis by (rule calcPoints_integers)
qed

text \<open>The theorem at "3 20-1 17 2 4".\<close>

theorem calcPoints_digit_tokens_witness:
  "list_all (all_digits 10) (split_sep (str ''3 20-1 17 2 4''))
   \<and> calcPoints (str ''3 20-1 17 2 4'') = Inr (Fin 85)"
proof -
  have h: "list_all (all_digits 10) (split_sep (str ''3 20-1 17 2 4''))"
    by (simp add: eval_defs)
  have "spec_score (map (\<lambda>t. int (digits_value 10 t)) (split_sep (str ''3 20-1 17 2 4''))) = 85"
    by (simp add: eval_defs)
  with calcPoints_digit_tokens [OF h] h show ?thesis by (simp add: of_integer_def)
qed

end
